theory Spec2Isabelle
  imports Main "HOL-Library.Product_Lexorder"
begin

section \<open>Email worker: data model\<close>

text \<open>
  The worker (\<^verbatim>\<open>worker.js\<close>) polls a document store for pending \<^verbatim>\<open>send_email\<close> jobs and
  sends each one over SMTP. The source holds two variants of the worker. The model follows
  the variant whose job schema has the fields \<^verbatim>\<open>retries\<close>, \<^verbatim>\<open>maxRetries\<close>, \<^verbatim>\<open>result\<close> and
  \<^verbatim>\<open>updated_at\<close>; the poll query and the message of the other variant (fields \<^verbatim>\<open>attempts\<close>,
  \<^verbatim>\<open>max_attempts\<close>, \<^verbatim>\<open>priority\<close>) are modelled in a section of their own. The
  \<^verbatim>\<open>processEmailJob\<close> of that variant has the same steps in the same order and the same
  \<^verbatim>\<open>catch\<close> block, and its \<^verbatim>\<open>sendEmail\<close> and port fallback are the same code; it counts
  \<^verbatim>\<open>attempts\<close> against \<^verbatim>\<open>max_attempts\<close>, writes no \<^verbatim>\<open>updated_at\<close> or \<^verbatim>\<open>result\<close>, and reads
  the attachment from a file.

  JavaScript numbers are modelled as \<open>int\<close>, dates as \<open>int\<close> (a time stamp), object ids and
  strings as \<open>string\<close>. A field of the untyped job payload is a \<open>string option\<close>: \<open>None\<close> is
  \<^verbatim>\<open>undefined\<close>/\<^verbatim>\<open>null\<close>.
\<close>

datatype job_type = generate_ticket | verify_ticket | update_ticket | send_email

datatype job_status = Queued | Pending | Processing | Completed | Error | Failed

record job_data =
  ticketId :: "string option"
  recipientEmail :: "string option"
  fromName :: "string option"
  subject :: "string option"
  textBody :: "string option"
  htmlBody :: "string option"
  attachmentBase64 :: "string option"
  attachmentFilename :: "string option"

record job_result =
  success :: bool
  messageId :: string

record job =
  job_id :: string
  job_type :: job_type
  data :: job_data
  status :: job_status
  result :: "job_result option"
  error :: "string option"
  retries :: int
  maxRetries :: int
  nextRetryAt :: "int option"
  created_at :: int
  updated_at :: int

record event =
  event_name :: "string option"

record ticket_details =
  details_name :: "string option"
  details_email :: "string option"

text \<open>
  A ticket document. \<open>ticket_event\<close> is the event the ticket refers to (its \<^verbatim>\<open>event\<close> path,
  \<^verbatim>\<open>ref: "Event"\<close>), \<open>None\<close> when it refers to none.
\<close>

record ticket =
  ticket_id :: string
  ticket_number :: string
  ticket_event :: "event option"
  ticket_status :: string
  imageUrl :: "string option"
  details :: "ticket_details option"

record credential =
  cred_id :: string
  cred_name :: string
  email :: string
  smtp_server :: string
  smtp_port :: int
  username :: string
  password :: string
  is_active :: bool
  daily_limit :: "int option"
  daily_usage :: int

text \<open>A thrown JavaScript \<^verbatim>\<open>Error\<close>: its \<^verbatim>\<open>code\<close> (when it has one) and its \<^verbatim>\<open>message\<close>.\<close>

record err =
  code :: "string option"
  message :: string

definition Error_msg :: "string \<Rightarrow> err" where
  "Error_msg m = \<lparr>code = None, message = m\<rparr>"

text \<open>
  \<^verbatim>\<open>worker.js\<close> registers the models \<^verbatim>\<open>Job\<close>, \<^verbatim>\<open>Ticket\<close> and \<^verbatim>\<open>EmailCredential\<close> and no model
  \<^verbatim>\<open>Event\<close>. Populating a path that refers to \<^verbatim>\<open>Event\<close> therefore fails with Mongoose's
  \<^verbatim>\<open>MissingSchemaError\<close>.
\<close>

definition MissingSchemaError :: err where
  "MissingSchemaError =
     \<lparr>code = None,
      message = ''Schema hasn'' @ [CHR 0x27] @ ''t been registered for model '' @ [CHR 0x22] @
        ''Event'' @ [CHR 0x22] @ ''.'' @ [CHR 0x0A] @ ''Use mongoose.model(name, schema)''\<rparr>"

record attachment =
  filename :: string
  content :: string

record email_options =
  mail_from :: string
  mail_to :: "string option"
  mail_subject :: string
  mail_text :: string
  mail_html :: "string option"
  attachments :: "attachment list"

section \<open>The outside world: store, network, clock\<close>

text \<open>
  Every \<^verbatim>\<open>await\<close> on the store or on the SMTP transport is an I/O operation. The trace
  records each operation in the order it is issued, with its outcome (\<open>None\<close>: it succeeded).
\<close>

datatype io_op =
    JobFind
  | JobSave job
  | TicketFindById string
  | CredentialFindOne
  | SmtpVerify string int bool
  | SmtpSendMail string int bool email_options
  | CredentialInc string
  | TicketSave ticket

record world =
  jobs :: "job list"
  tickets :: "ticket list"
  credentials :: "credential list"
  tick :: nat
  trace :: "(io_op \<times> err option) list"

text \<open>
  What the worker does not control: \<open>fault n\<close> is the outcome of the \<open>n\<close>-th I/O operation
  (an error, or \<open>None\<close>), \<open>msgid n\<close> the message id the SMTP server returns when that
  operation is a \<^verbatim>\<open>sendMail\<close>, and \<open>now n\<close> what \<^verbatim>\<open>new Date()\<close> yields after \<open>n\<close> operations.
  \<open>cast_error s\<close> is the \<^verbatim>\<open>CastError\<close> the database driver throws when it is given the string \<open>s\<close>
  as a document id and cannot read it as an ObjectId, and \<open>None\<close> when it can.
\<close>

record env =
  fault :: "nat \<Rightarrow> err option"
  msgid :: "nat \<Rightarrow> string"
  now :: "nat \<Rightarrow> int"
  cast_error :: "string \<Rightarrow> err option"

definition io :: "env \<Rightarrow> io_op \<Rightarrow> world \<Rightarrow> err option \<times> world" where
  "io e op w =
     (fault e (tick w),
      w\<lparr>tick := Suc (tick w), trace := trace w @ [(op, fault e (tick w))]\<rparr>)"

text \<open>JavaScript truthiness of a string-or-undefined value, and \<^verbatim>\<open>a || b\<close> on strings.\<close>

definition truthy :: "string option \<Rightarrow> bool" where
  "truthy v = (case v of None \<Rightarrow> False | Some s \<Rightarrow> s \<noteq> [])"

definition or_default :: "string option \<Rightarrow> string \<Rightarrow> string" where
  "or_default v d = (case v of None \<Rightarrow> d | Some s \<Rightarrow> if s = [] then d else s)"

section \<open>Store operations\<close>

text \<open>A write by id changes the first document with that id, as the store's update does.\<close>

fun replace_job :: "job \<Rightarrow> job list \<Rightarrow> job list" where
  "replace_job j [] = []"
| "replace_job j (x # xs) = (if job_id x = job_id j then j # xs else x # replace_job j xs)"

fun replace_ticket :: "ticket \<Rightarrow> ticket list \<Rightarrow> ticket list" where
  "replace_ticket t [] = []"
| "replace_ticket t (x # xs) =
     (if ticket_id x = ticket_id t then t # xs else x # replace_ticket t xs)"

fun inc_daily_usage :: "string \<Rightarrow> credential list \<Rightarrow> credential list" where
  "inc_daily_usage i [] = []"
| "inc_daily_usage i (c # cs) =
     (if cred_id c = i then c\<lparr>daily_usage := daily_usage c + 1\<rparr> # cs
      else c # inc_daily_usage i cs)"

definition find_job :: "string \<Rightarrow> job list \<Rightarrow> job option" where
  "find_job i js = find (\<lambda>j. job_id j = i) js"

definition find_ticket :: "string \<Rightarrow> ticket list \<Rightarrow> ticket option" where
  "find_ticket i ts = find (\<lambda>t. ticket_id t = i) ts"


text \<open>\<^verbatim>\<open>job.save()\<close>: a full-document save.\<close>

definition job_save :: "env \<Rightarrow> job \<Rightarrow> world \<Rightarrow> err option \<times> world" where
  "job_save e j w =
     (case io e (JobSave j) w of
        (Some x, w') \<Rightarrow> (Some x, w')
      | (None, w') \<Rightarrow> (None, w'\<lparr>jobs := replace_job j (jobs w')\<rparr>))"

text \<open>\<^verbatim>\<open>ticket.save()\<close>.\<close>

definition ticket_save :: "env \<Rightarrow> ticket \<Rightarrow> world \<Rightarrow> err option \<times> world" where
  "ticket_save e t w =
     (case io e (TicketSave t) w of
        (Some x, w') \<Rightarrow> (Some x, w')
      | (None, w') \<Rightarrow> (None, w'\<lparr>tickets := replace_ticket t (tickets w')\<rparr>))"

text \<open>
  \<^verbatim>\<open>Ticket.findById(ticketId).populate("event")\<close>, one awaited operation. It rejects when the
  id cannot be cast, when the store fails, and when the ticket found refers to an event
  (there is no \<^verbatim>\<open>Event\<close> model to populate it from). It yields \<^verbatim>\<open>null\<close> when no ticket has the
  id, and otherwise a ticket without event. The trace records what the operation gave.
\<close>

definition ticket_findById :: "env \<Rightarrow> string \<Rightarrow> world \<Rightarrow> (err + ticket option) \<times> world" where
  "ticket_findById e i w =
     (let r = (case cast_error e i of
                 Some x \<Rightarrow> Inl x
               | None \<Rightarrow>
                   (case fault e (tick w) of
                      Some x \<Rightarrow> Inl x
                    | None \<Rightarrow>
                        (case find_ticket i (tickets w) of
                           None \<Rightarrow> Inr None
                         | Some t \<Rightarrow>
                             if ticket_event t = None then Inr (Some t)
                             else Inl MissingSchemaError)))
      in (r, w\<lparr>tick := Suc (tick w),
                trace := trace w @
                  [(TicketFindById i, case r of Inl x \<Rightarrow> Some x | Inr t \<Rightarrow> None)]\<rparr>))"

text \<open>
  The credential filter of \<^verbatim>\<open>processEmailJob\<close>:
  \<^verbatim>\<open>{ is_active: true, $or: [ {daily_limit: {$exists: false}}, {daily_limit: null},
     {$expr: {$lt: ["$daily_usage", "$daily_limit"]}} ] }\<close>.
  An unset and a null limit are both \<open>None\<close>.
\<close>

definition eligible :: "credential \<Rightarrow> bool" where
  "eligible c =
     (is_active c \<and> (case daily_limit c of None \<Rightarrow> True | Some l \<Rightarrow> daily_usage c < l))"

text \<open>\<^verbatim>\<open>EmailCredential.findOne(filter)\<close>: the first match in the store's order.\<close>

definition credential_findOne :: "env \<Rightarrow> world \<Rightarrow> (err + credential option) \<times> world" where
  "credential_findOne e w =
     (case io e CredentialFindOne w of
        (Some x, w') \<Rightarrow> (Inl x, w')
      | (None, w') \<Rightarrow> (Inr (find eligible (credentials w')), w'))"

text \<open>\<^verbatim>\<open>EmailCredential.findByIdAndUpdate(id, { $inc: { daily_usage: 1 } })\<close>.\<close>

definition credential_inc :: "env \<Rightarrow> string \<Rightarrow> world \<Rightarrow> err option \<times> world" where
  "credential_inc e i w =
     (case io e (CredentialInc i) w of
        (Some x, w') \<Rightarrow> (Some x, w')
      | (None, w') \<Rightarrow> (None, w'\<lparr>credentials := inc_daily_usage i (credentials w')\<rparr>))"

section \<open>Delivery\<close>

text \<open>
  \<^verbatim>\<open>sendEmail(credential, emailOptions, usePort465)\<close>: builds a transport for the chosen port,
  verifies the connection, sends, and returns the server's message id. Either network step
  may throw.
\<close>

definition sendEmail ::
  "env \<Rightarrow> credential \<Rightarrow> email_options \<Rightarrow> bool \<Rightarrow> world \<Rightarrow> (err + string) \<times> world" where
  "sendEmail e credential emailOptions usePort465 w =
     (let port = (if usePort465 then 465 else smtp_port credential);
          secure = (port = 465)
      in case io e (SmtpVerify (smtp_server credential) port secure) w of
           (Some x, w1) \<Rightarrow> (Inl x, w1)
         | (None, w1) \<Rightarrow>
             (case io e (SmtpSendMail (smtp_server credential) port secure emailOptions) w1 of
                (Some x, w2) \<Rightarrow> (Inl x, w2)
              | (None, w2) \<Rightarrow> (Inr (msgid e (tick w1)), w2)))"

text \<open>
  The \<^verbatim>\<open>try { sendEmail(.., false) } catch (error) { .. }\<close> block of \<^verbatim>\<open>processEmailJob\<close>:
  the configured port first, port 465 after a time-out on port 587.
\<close>

definition send_with_fallback ::
  "env \<Rightarrow> credential \<Rightarrow> email_options \<Rightarrow> world \<Rightarrow> (err + string) \<times> world" where
  "send_with_fallback e credential emailOptions w =
     (case sendEmail e credential emailOptions False w of
        (Inr info, w1) \<Rightarrow> (Inr info, w1)
      | (Inl x, w1) \<Rightarrow>
          if code x = Some ''ETIMEDOUT'' \<and> smtp_port credential = 587
          then sendEmail e credential emailOptions True w1
          else (Inl x, w1))"

section \<open>The job state machine\<close>

text \<open>
  The message of \<^verbatim>\<open>processEmailJob\<close> (\<^verbatim>\<open>const emailOptions = { .. }\<close>). The attachment
  content stands for the buffer decoded from the base64 text.
\<close>

definition compose :: "job \<Rightarrow> ticket \<Rightarrow> credential \<Rightarrow> email_options" where
  "compose job ticket credential =
     \<lparr>mail_from =
        [CHR 0x22] @ or_default (fromName (data job)) ''Admin'' @ [CHR 0x22] @ '' <'' @
        email credential @ ''>'',
      mail_to =
        (if truthy (recipientEmail (data job)) then recipientEmail (data job)
         else (case details ticket of None \<Rightarrow> None | Some d \<Rightarrow> details_email d)),
      mail_subject =
        or_default (subject (data job))
          (''Your Ticket for '' @
           or_default (case ticket_event ticket of None \<Rightarrow> None | Some ev \<Rightarrow> event_name ev)
             ''Event''),
      mail_text = or_default (textBody (data job)) ''Your ticket is attached.'',
      mail_html = (if truthy (htmlBody (data job)) then htmlBody (data job) else None),
      attachments =
        [\<lparr>filename = or_default (attachmentFilename (data job)) [],
          content = or_default (attachmentBase64 (data job)) []\<rparr>]\<rparr>"

text \<open>
  The functions below return the outcome of a block (\<open>Some x\<close>: it threw \<open>x\<close>), the
  in-memory job document as the block left it, and the world.

  After the send: \<^verbatim>\<open>// Update credential usage\<close>, \<^verbatim>\<open>// Mark job as completed\<close>,
  \<^verbatim>\<open>// Update ticket status\<close>.
\<close>

definition processEmailJob_commit ::
  "env \<Rightarrow> job \<Rightarrow> ticket \<Rightarrow> credential \<Rightarrow> string \<Rightarrow> world \<Rightarrow> err option \<times> job \<times> world" where
  "processEmailJob_commit e job ticket credential mid w =
     (case credential_inc e (cred_id credential) w of
        (Some x, w1) \<Rightarrow> (Some x, job, w1)
      | (None, w1) \<Rightarrow>
          (let job' = job\<lparr>status := Completed,
                           result := Some \<lparr>success = True, messageId = mid\<rparr>,
                           updated_at := now e (tick w1)\<rparr>
           in case job_save e job' w1 of
                (Some x, w2) \<Rightarrow> (Some x, job', w2)
              | (None, w2) \<Rightarrow>
                  (case ticket_save e (ticket\<lparr>ticket_status := ''sent''\<rparr>) w2 of
                     (Some x, w3) \<Rightarrow> (Some x, job', w3)
                   | (None, w3) \<Rightarrow> (None, job', w3))))"

text \<open>
  From \<^verbatim>\<open>// Get email credential\<close> to the send: select a credential, check the attachment,
  compose, deliver.
\<close>

definition processEmailJob_send ::
  "env \<Rightarrow> job \<Rightarrow> ticket \<Rightarrow> world \<Rightarrow> err option \<times> job \<times> world" where
  "processEmailJob_send e job ticket w =
     (case credential_findOne e w of
        (Inl x, w1) \<Rightarrow> (Some x, job, w1)
      | (Inr None, w1) \<Rightarrow> (Some (Error_msg ''No available email credentials''), job, w1)
      | (Inr (Some credential), w1) \<Rightarrow>
          if \<not> truthy (attachmentBase64 (data job)) \<or> \<not> truthy (attachmentFilename (data job))
          then (Some (Error_msg ''Attachment data missing in job''), job, w1)
          else (case send_with_fallback e credential (compose job ticket credential) w1 of
                  (Inl x, w2) \<Rightarrow> (Some x, job, w2)
                | (Inr mid, w2) \<Rightarrow> processEmailJob_commit e job ticket credential mid w2))"

text \<open>
  The \<^verbatim>\<open>try\<close> block after the claim write, from \<^verbatim>\<open>// Get ticket details from job data\<close> on:
  resolve the ticket, then go on to the send.
\<close>

definition processEmailJob_resolve ::
  "env \<Rightarrow> job \<Rightarrow> world \<Rightarrow> err option \<times> job \<times> world" where
  "processEmailJob_resolve e job w =
     (if \<not> truthy (ticketId (data job))
      then (Some (Error_msg ''Ticket ID not found in job data''), job, w)
      else (case ticket_findById e (or_default (ticketId (data job)) []) w of
              (Inl x, w1) \<Rightarrow> (Some x, job, w1)
            | (Inr None, w1) \<Rightarrow> (Some (Error_msg ''Ticket not found''), job, w1)
            | (Inr (Some ticket), w1) \<Rightarrow> processEmailJob_send e job ticket w1))"

text \<open>The \<^verbatim>\<open>try\<close> block: the claim write (\<^verbatim>\<open>// Update job status\<close>), then the rest.\<close>

definition processEmailJob_try :: "env \<Rightarrow> job \<Rightarrow> world \<Rightarrow> err option \<times> job \<times> world" where
  "processEmailJob_try e job w =
     (let job1 = job\<lparr>status := Processing, retries := retries job + 1,
                      updated_at := now e (tick w)\<rparr>
      in case job_save e job1 w of
           (Some x, w1) \<Rightarrow> (Some x, job1, w1)
         | (None, w1) \<Rightarrow> processEmailJob_resolve e job1 w1)"

text \<open>The \<^verbatim>\<open>catch\<close> block: record the error, choose the status, save.\<close>

definition processEmailJob_catch ::
  "env \<Rightarrow> err \<Rightarrow> job \<Rightarrow> world \<Rightarrow> (err + bool) \<times> job \<times> world" where
  "processEmailJob_catch e x job w =
     (let job1 = job\<lparr>error := Some (message x), updated_at := now e (tick w)\<rparr>;
          job2 = (if retries job1 \<ge> maxRetries job1 then job1\<lparr>status := Failed\<rparr>
                  else job1\<lparr>status := Pending\<rparr>)
      in case job_save e job2 w of
           (Some y, w1) \<Rightarrow> (Inl y, job2, w1)
         | (None, w1) \<Rightarrow> (Inr False, job2, w1))"

text \<open>
  \<^verbatim>\<open>processEmailJob(job)\<close>: \<open>Inr b\<close> when the promise resolves to \<open>b\<close>, \<open>Inl y\<close> when it
  rejects with \<open>y\<close>.
\<close>

definition processEmailJob :: "env \<Rightarrow> job \<Rightarrow> world \<Rightarrow> (err + bool) \<times> job \<times> world" where
  "processEmailJob e job w =
     (case processEmailJob_try e job w of
        (None, job', w') \<Rightarrow> (Inr True, job', w')
      | (Some x, job', w') \<Rightarrow> processEmailJob_catch e x job' w')"

section \<open>The poll scheduler\<close>

text \<open>
  The query of \<^verbatim>\<open>pollJobs\<close>:
  \<^verbatim>\<open>Job.find({ job_type: "send_email", status: "pending", retries: { $lt: 3 } })
     .sort({ created_at: 1 }).limit(5)\<close>.
  Among jobs created at the same time the order is the store's choice; the model keeps the
  stored order.
\<close>

definition poll_filter :: "job \<Rightarrow> bool" where
  "poll_filter j = (job_type j = send_email \<and> status j = Pending \<and> retries j < 3)"

definition poll_query :: "job list \<Rightarrow> job list" where
  "poll_query js = take 5 (sort_key created_at (filter poll_filter js))"

definition job_find :: "env \<Rightarrow> world \<Rightarrow> (err + job list) \<times> world" where
  "job_find e w =
     (case io e JobFind w of
        (Some x, w') \<Rightarrow> (Inl x, w')
      | (None, w') \<Rightarrow> (Inr (poll_query (jobs w')), w'))"

text \<open>
  The \<^verbatim>\<open>for (const job of jobs)\<close> loop: one job after the other; a rejected
  \<^verbatim>\<open>processEmailJob\<close> leaves the loop.
\<close>

fun process_batch :: "env \<Rightarrow> job list \<Rightarrow> world \<Rightarrow> err option \<times> world" where
  "process_batch e [] w = (None, w)"
| "process_batch e (j # js) w =
     (case processEmailJob e j w of
        (Inl x, _, w') \<Rightarrow> (Some x, w')
      | (Inr _, _, w') \<Rightarrow> process_batch e js w')"

text \<open>
  \<^verbatim>\<open>pollJobs()\<close>: its \<^verbatim>\<open>catch\<close> only logs, so the promise always resolves; the first
  component is the error that was logged, if any.
\<close>

definition pollJobs :: "env \<Rightarrow> world \<Rightarrow> err option \<times> world" where
  "pollJobs e w =
     (case job_find e w of
        (Inl x, w') \<Rightarrow> (Some x, w')
      | (Inr js, w') \<Rightarrow> process_batch e js w')"

section \<open>The variant with \<^verbatim>\<open>attempts\<close>, \<^verbatim>\<open>max_attempts\<close> and \<^verbatim>\<open>priority\<close>\<close>

text \<open>
  The other variant of \<^verbatim>\<open>worker.js\<close> has a job schema with a \<^verbatim>\<open>priority\<close> and reads the
  recipient from the ticket. Its names carry the suffix \<open>A\<close>.
\<close>

datatype job_typeA = generate_ticketA | send_emailA

datatype job_statusA = PendingA | ProcessingA | CompletedA | FailedA

record job_dataA =
  fromNameA :: "string option"
  subjectA :: "string option"
  textBodyA :: "string option"
  htmlBodyA :: "string option"

record jobA =
  job_idA :: string
  ticket_idA :: "string option"
  job_typeA :: job_typeA
  statusA :: job_statusA
  priorityA :: int
  dataA :: job_dataA
  errorA :: "string option"
  attemptsA :: int
  max_attemptsA :: int
  created_atA :: int
  processed_atA :: "int option"

text \<open>
  The ticket as the message is built from it: \<open>ticket_eventA\<close> is what \<^verbatim>\<open>ticket.event_id\<close>
  holds as a populated event document, if anything. This variant registers no \<^verbatim>\<open>Event\<close> model
  either.
\<close>

record ticketA =
  ticket_numberA :: string
  ticket_eventA :: "event option"
  attendee_nameA :: string
  attendee_emailA :: "string option"
  attendee_phoneA :: "string option"
  image_urlA :: "string option"
  ticket_statusA :: string

text \<open>
  The ceiling of the query, \<^verbatim>\<open>mongoose.mongo.MAX_ATTEMPTS || 3\<close>. The constant belongs to
  the database driver, so it is a parameter here: \<open>None\<close> when the driver does not define it.
\<close>

definition attempts_ceiling :: "int option \<Rightarrow> int" where
  "attempts_ceiling MAX_ATTEMPTS =
     (case MAX_ATTEMPTS of None \<Rightarrow> 3 | Some n \<Rightarrow> if n = 0 then 3 else n)"

definition poll_filterA :: "int option \<Rightarrow> jobA \<Rightarrow> bool" where
  "poll_filterA MAX_ATTEMPTS j =
     (job_typeA j = send_emailA \<and> statusA j = PendingA \<and>
      attemptsA j < attempts_ceiling MAX_ATTEMPTS)"

text \<open>
  \<^verbatim>\<open>Job.find({ .. }).sort({ priority: -1, created_at: 1 }).limit(5)\<close>: the sort key is the
  pair of the negated priority and the creation time, compared lexicographically.
\<close>

definition poll_queryA :: "int option \<Rightarrow> jobA list \<Rightarrow> jobA list" where
  "poll_queryA MAX_ATTEMPTS js =
     take 5 (sort_key (\<lambda>j. (- priorityA j, created_atA j))
               (filter (poll_filterA MAX_ATTEMPTS) js))"

text \<open>
  The order the query asks for: higher priority first, and the older job first among jobs
  of one priority.
\<close>

definition served_before :: "jobA \<Rightarrow> jobA \<Rightarrow> bool" where
  "served_before j k =
     (priorityA j > priorityA k \<or> (priorityA j = priorityA k \<and> created_atA j \<le> created_atA k))"



section \<open>Reading a trace\<close>

text \<open>The ports of the transports opened, in order: every \<open>sendEmail\<close> opens one.\<close>

fun transport_ports :: "(io_op \<times> err option) list \<Rightarrow> int list" where
  "transport_ports [] = []"
| "transport_ports ((SmtpVerify h p s, r) # xs) = p # transport_ports xs"
| "transport_ports (_ # xs) = transport_ports xs"

text \<open>The statuses a job was saved with, each with the outcome of the save.\<close>

fun saved_statuses :: "(io_op \<times> err option) list \<Rightarrow> (job_status \<times> err option) list" where
  "saved_statuses [] = []"
| "saved_statuses ((JobSave j, r) # xs) = (status j, r) # saved_statuses xs"
| "saved_statuses (_ # xs) = saved_statuses xs"


text \<open>The messages handed to the SMTP transport, accepted or not.\<close>

fun sent_messages :: "(io_op \<times> err option) list \<Rightarrow> email_options list" where
  "sent_messages [] = []"
| "sent_messages ((SmtpSendMail h p s m, r) # xs) = m # sent_messages xs"
| "sent_messages (_ # xs) = sent_messages xs"

text \<open>The messages the SMTP server accepted.\<close>

fun delivered :: "(io_op \<times> err option) list \<Rightarrow> email_options list" where
  "delivered [] = []"
| "delivered ((SmtpSendMail h p s m, None) # xs) = m # delivered xs"
| "delivered (_ # xs) = delivered xs"

text \<open>
  The ticks of the \<^verbatim>\<open>sendMail\<close> operations the server accepted, in a trace that starts at
  tick \<open>n\<close>.
\<close>

fun accepted_ticks :: "nat \<Rightarrow> (io_op \<times> err option) list \<Rightarrow> nat list" where
  "accepted_ticks n [] = []"
| "accepted_ticks n ((SmtpSendMail h p s m, None) # xs) = n # accepted_ticks (Suc n) xs"
| "accepted_ticks n (_ # xs) = accepted_ticks (Suc n) xs"

text \<open>The ids of the jobs claimed (saved with status \<open>Processing\<close>), in order.\<close>

fun claimed_ids :: "(io_op \<times> err option) list \<Rightarrow> string list" where
  "claimed_ids [] = []"
| "claimed_ids ((JobSave j, r) # xs) =
     (if status j = Processing then job_id j # claimed_ids xs else claimed_ids xs)"
| "claimed_ids (_ # xs) = claimed_ids xs"

text \<open>The writes that follow a delivery.\<close>

fun is_commit_write :: "io_op \<Rightarrow> bool" where
  "is_commit_write (CredentialInc i) = True"
| "is_commit_write (JobSave j) = (status j = Completed)"
| "is_commit_write (TicketSave t) = True"
| "is_commit_write _ = False"

section \<open>Example data\<close>

definition job0 :: job where
  "job0 = \<lparr>job_id = ''j1'', job_type = send_email,
     data = \<lparr>ticketId = Some ''6915ee4ed305d433279da1f2'', recipientEmail = None,
             fromName = None, subject = None,
             textBody = None, htmlBody = None, attachmentBase64 = Some ''QUJD'',
             attachmentFilename = Some ''ticket.png''\<rparr>,
     status = Pending, result = None, error = None, retries = 0, maxRetries = 3,
     nextRetryAt = None, created_at = 10, updated_at = 10\<rparr>"

definition job1 :: job where
  "job1 = job0\<lparr>job_id := ''j2'', created_at := 20, updated_at := 20\<rparr>"

text \<open>A ticket that refers to no event, and the same ticket referring to one.\<close>

definition ticket0 :: ticket where
  "ticket0 = \<lparr>ticket_id = ''6915ee4ed305d433279da1f2'', ticket_number = ''T-1'',
     ticket_event = None, ticket_status = ''generated'',
     imageUrl = None,
     details = Some \<lparr>details_name = Some ''Kiran'',
                     details_email = Some ''kiran@example.org''\<rparr>\<rparr>"

definition cred0 :: credential where
  "cred0 = \<lparr>cred_id = ''c1'', cred_name = ''main'', email = ''admin@example.org'',
     smtp_server = ''smtp.example.org'', smtp_port = 587, username = ''admin'',
     password = ''secret'', is_active = True, daily_limit = Some 500, daily_usage = 7\<rparr>"


definition world0 :: world where
  "world0 = \<lparr>jobs = [job0], tickets = [ticket0], credentials = [cred0], tick = 0, trace = []\<rparr>"

text \<open>An environment whose driver casts the strings of 24 hexadecimal digits.\<close>

definition is_hex24 :: "string \<Rightarrow> bool" where
  "is_hex24 s = (length s = 24 \<and> list_all (\<lambda>c. c \<in> set ''0123456789abcdefABCDEF'') s)"

definition CastError :: "string \<Rightarrow> err" where
  "CastError s =
     \<lparr>code = None,
      message = ''Cast to ObjectId failed for value '' @ [CHR 0x22] @ s @ [CHR 0x22] @
        '' (type string) at path '' @ [CHR 0x22] @ ''_id'' @ [CHR 0x22] @ '' for model '' @
        [CHR 0x22] @ ''Ticket'' @ [CHR 0x22]\<rparr>"

definition env_faults :: "(nat \<Rightarrow> err option) \<Rightarrow> env" where
  "env_faults f =
     \<lparr>fault = f, msgid = (\<lambda>n. ''m1''), now = (\<lambda>n. 100 + int n),
      cast_error = (\<lambda>s. if is_hex24 s then None else Some (CastError s))\<rparr>"

definition store_down :: err where
  "store_down = \<lparr>code = None, message = ''store unavailable''\<rparr>"

definition timed_out :: err where
  "timed_out = \<lparr>code = Some ''ETIMEDOUT'', message = ''Connection timeout''\<rparr>"

definition fault_at :: "nat list \<Rightarrow> err \<Rightarrow> nat \<Rightarrow> err option" where
  "fault_at ns x n = (if n \<in> set ns then Some x else None)"

definition job2 :: job where
  "job2 = job0\<lparr>job_id := ''j3'', status := Completed\<rparr>"

definition world1 :: world where
  "world1 = world0\<lparr>jobs := [job1, job0, job2]\<rparr>"


text \<open>A job that allows five attempts and has used two.\<close>

definition job5 :: job where
  "job5 = job0\<lparr>retries := 2, maxRetries := 5\<rparr>"

definition jobA0 :: jobA where
  "jobA0 = \<lparr>job_idA = ''a1'', ticket_idA = Some ''6915ee4ed305d433279da1f2'',
     job_typeA = send_emailA,
     statusA = PendingA, priorityA = 0,
     dataA = \<lparr>fromNameA = None, subjectA = None, textBodyA = None, htmlBodyA = None\<rparr>,
     errorA = None, attemptsA = 0, max_attemptsA = 3, created_atA = 10,
     processed_atA = None\<rparr>"

definition jobA1 :: jobA where
  "jobA1 = jobA0\<lparr>job_idA := ''a2'', priorityA := 10, created_atA := 20\<rparr>"

definition jobA2 :: jobA where
  "jobA2 = jobA0\<lparr>job_idA := ''a3'', created_atA := 5\<rparr>"

section \<open>Basic facts\<close>

lemmas unfold_all = processEmailJob_def processEmailJob_try_def processEmailJob_resolve_def
  processEmailJob_catch_def processEmailJob_send_def processEmailJob_commit_def
  send_with_fallback_def sendEmail_def credential_findOne_def credential_inc_def
  ticket_findById_def ticket_save_def job_save_def io_def Let_def

lemmas example_data = env_faults_def fault_at_def world0_def job0_def ticket0_def cred0_def
  truthy_def or_default_def find_ticket_def find_job_def eligible_def is_hex24_def
  store_down_def timed_out_def

lemma find_job_replace_same:
  "find_job i js \<noteq> None \<Longrightarrow> job_id j = i \<Longrightarrow> find_job i (replace_job j js) = Some j"
  by (induction js) (auto simp: find_job_def)

lemma find_job_replace_other:
  "job_id j \<noteq> i \<Longrightarrow> find_job i (replace_job j js) = find_job i js"
  by (induction js) (auto simp: find_job_def)

lemma ticket_findById_eq:
  "ticket_findById e i w = (r, w') \<Longrightarrow>
   jobs w' = jobs w \<and> tickets w' = tickets w \<and> credentials w' = credentials w \<and>
   tick w' = Suc (tick w) \<and>
   trace w' = trace w @ [(TicketFindById i, case r of Inl x \<Rightarrow> Some x | Inr t \<Rightarrow> None)] \<and>
   (\<forall>t. r = Inr (Some t) \<longrightarrow>
      find_ticket i (tickets w) = Some t \<and> ticket_event t = None \<and> cast_error e i = None \<and>
      fault e (tick w) = None)"
  by (auto simp: ticket_findById_def Let_def split: option.splits if_splits)

lemma try_job:
  "processEmailJob_try e job w = (r, j', w') \<Longrightarrow>
   job_id j' = job_id job \<and> retries j' = retries job + 1 \<and> maxRetries j' = maxRetries job \<and>
   job_type j' = job_type job \<and> data j' = data job \<and> error j' = error job \<and>
   (find_job (job_id job) (jobs w) \<noteq> None \<longrightarrow> find_job (job_id job) (jobs w') \<noteq> None)"
  by (auto simp: unfold_all find_job_replace_same
        split: option.splits sum.splits if_splits prod.splits)

lemma try_trace:
  assumes "processEmailJob_try e job w = (r, j', w')"
  shows "\<exists>rest. trace w' =
           trace w @ (JobSave (job\<lparr>status := Processing, retries := retries job + 1,
                                   updated_at := now e (tick w)\<rparr>), fault e (tick w)) # rest \<and>
         (fault e (tick w) \<noteq> None \<longrightarrow> rest = []) \<and>
         (\<forall>j y. (JobSave j, y) \<in> set rest \<longrightarrow> status j = Completed)"
  using assms
  by (auto simp: unfold_all split: option.splits sum.splits if_splits prod.splits)

lemma try_store:
  assumes "processEmailJob_try e job w = (r, j', w')"
      and "find_job (job_id job) (jobs w) \<noteq> None"
  shows "(fault e (tick w) \<noteq> None \<longrightarrow> jobs w' = jobs w) \<and>
         (fault e (tick w) = None \<longrightarrow>
            find_job (job_id job) (jobs w') =
              Some (job\<lparr>status := Processing, retries := retries job + 1,
                         updated_at := now e (tick w)\<rparr>) \<or>
            (find_job (job_id job) (jobs w') = Some j' \<and> status j' = Completed))"
  using assms
  by (auto simp: unfold_all find_job_replace_same
        split: option.splits sum.splits if_splits prod.splits)

lemma transport_ports_append:
  "transport_ports (xs @ ys) = transport_ports xs @ transport_ports ys"
  by (induction xs rule: transport_ports.induct) auto

lemma sendEmail_ports:
  "sendEmail e c m u w = (r, w') \<Longrightarrow>
   \<exists>new. trace w' = trace w @ new \<and> transport_ports new = [if u then 465 else smtp_port c]"
  by (auto simp: sendEmail_def io_def Let_def split: option.splits)

section \<open>Failure of an attempt\<close>

text \<open>
  C1 (as amended). When the \<open>try\<close> block of \<open>processEmailJob\<close> throws \<open>x\<close>, the \<open>catch\<close> block
  sets the job's error to the message of \<open>x\<close> and its status to \<open>Failed\<close> if the incremented
  retries reach \<open>maxRetries\<close> and to \<open>Pending\<close> otherwise. When the save of the \<open>catch\<close> block
  succeeds, that job is the stored document and \<open>processEmailJob\<close> returns false. When that
  save throws, \<open>processEmailJob\<close> rejects with the save's error and the store is as the \<open>try\<close>
  block left it: unchanged if the claim write was rejected too, and otherwise holding the
  job as \<open>Processing\<close> (or \<open>Completed\<close>) with the incremented retries and without the new
  error, a document the poll query does not select.
\<close>

theorem failed_attempt_commit:
  assumes "processEmailJob_try e job w = (Some x, j1, w1)"
      and "find_job (job_id job) (jobs w) \<noteq> None"
  shows "\<exists>r j' w'. processEmailJob e job w = (r, j', w') \<and>
           error j' = Some (message x) \<and>
           retries j' = retries job + 1 \<and>
           status j' = (if retries job + 1 \<ge> maxRetries job then Failed else Pending) \<and>
           (fault e (tick w1) = None \<longrightarrow>
              r = Inr False \<and> find_job (job_id job) (jobs w') = Some j') \<and>
           (\<forall>y. fault e (tick w1) = Some y \<longrightarrow>
              r = Inl y \<and> jobs w' = jobs w1 \<and>
              (fault e (tick w) \<noteq> None \<longrightarrow> jobs w1 = jobs w) \<and>
              (fault e (tick w) = None \<longrightarrow>
                 (\<exists>s. find_job (job_id job) (jobs w1) = Some s \<and>
                      (status s = Processing \<or> status s = Completed) \<and>
                      retries s = retries job + 1 \<and> error s = error job \<and>
                      \<not> poll_filter s)))"
proof -
  note tj = try_job[OF assms(1)]
  note ts = try_store[OF assms]
  have stranded: "fault e (tick w) = None \<longrightarrow>
                 (\<exists>s. find_job (job_id job) (jobs w1) = Some s \<and>
                      (status s = Processing \<or> status s = Completed) \<and>
                      retries s = retries job + 1 \<and> error s = error job \<and>
                      \<not> poll_filter s)"
    using ts tj by (auto simp: poll_filter_def)
  show ?thesis
  proof (cases "fault e (tick w1)")
    case None
    with assms tj show ?thesis
      by (auto simp: processEmailJob_def processEmailJob_catch_def job_save_def io_def Let_def
            find_job_replace_same)
  next
    case (Some y)
    with assms tj ts stranded show ?thesis
      by (auto simp: processEmailJob_def processEmailJob_catch_def job_save_def io_def Let_def)
  qed
qed

text \<open>
  Two runs of the theorem, both with no active credential. In the first the save of the
  \<open>catch\<close> block succeeds and the job goes back to \<open>Pending\<close> with one retry used. In the
  second the store rejects that save: \<open>processEmailJob\<close> rejects and the job stays stored as
  \<open>Processing\<close>.
\<close>

theorem failed_attempt_commit_witness:
  "fst (processEmailJob_try (env_faults (\<lambda>n. None)) job0 (world0\<lparr>credentials := []\<rparr>)) =
     Some (Error_msg ''No available email credentials'') \<and>
   find_job (job_id job0) (jobs (world0\<lparr>credentials := []\<rparr>)) \<noteq> None \<and>
   (\<exists>j' w'. processEmailJob (env_faults (\<lambda>n. None)) job0 (world0\<lparr>credentials := []\<rparr>) =
              (Inr False, j', w') \<and>
            error j' = Some ''No available email credentials'' \<and> retries j' = 1 \<and>
            status j' = Pending \<and> find_job ''j1'' (jobs w') = Some j') \<and>
   fst (processEmailJob_try (env_faults (fault_at [3] store_down)) job0
          (world0\<lparr>credentials := []\<rparr>)) =
     Some (Error_msg ''No available email credentials'') \<and>
   (\<exists>j' w'. processEmailJob (env_faults (fault_at [3] store_down)) job0
              (world0\<lparr>credentials := []\<rparr>) = (Inl store_down, j', w') \<and>
            error j' = Some ''No available email credentials'' \<and> status j' = Pending \<and>
            map status (jobs w') = [Processing] \<and> map retries (jobs w') = [1] \<and>
            map error (jobs w') = [None])"
proof -
  let ?w = "world0\<lparr>credentials := []\<rparr>"
  let ?e = "env_faults (\<lambda>n. None)" and ?f = "env_faults (fault_at [3] store_down)"
  let ?t = "processEmailJob_try ?e job0 ?w" and ?u = "processEmailJob_try ?f job0 ?w"
  have a: "fst ?t = Some (Error_msg ''No available email credentials'')" by code_simp
  then have t: "?t = (Some (Error_msg ''No available email credentials''), fst (snd ?t), snd (snd ?t))"
    by (metis prod.collapse)
  have b: "fst ?u = Some (Error_msg ''No available email credentials'')" by code_simp
  then have u: "?u = (Some (Error_msg ''No available email credentials''), fst (snd ?u), snd (snd ?u))"
    by (metis prod.collapse)
  have s: "find_job (job_id job0) (jobs ?w) \<noteq> None" by (simp add: find_job_def world0_def)
  have ft: "fault ?e (tick (snd (snd ?t))) = None" by (simp add: env_faults_def)
  have fu: "fault ?f (tick (snd (snd ?u))) = Some store_down" by code_simp
  have f0: "fault ?f (tick ?w) = None" by code_simp
  have c: "retries job0 = 0" "maxRetries job0 = 3" "job_id job0 = ''j1''" "error job0 = None"
    by (simp_all add: job0_def)
  from failed_attempt_commit[OF t s] ft c
  have 1: "\<exists>j' w'. processEmailJob ?e job0 ?w = (Inr False, j', w') \<and>
            error j' = Some ''No available email credentials'' \<and> retries j' = 1 \<and>
            status j' = Pending \<and> find_job ''j1'' (jobs w') = Some j'"
    by (auto simp: Error_msg_def)
  from failed_attempt_commit[OF u s] fu c
  obtain r j' w' where run: "processEmailJob ?f job0 ?w = (r, j', w')"
    "error j' = Some (message (Error_msg ''No available email credentials''))"
    "status j' = Pending" "r = Inl store_down" "jobs w' = jobs (snd (snd ?u))"
    by auto
  have "map status (jobs (snd (snd ?u))) = [Processing]"
    "map retries (jobs (snd (snd ?u))) = [1]" "map error (jobs (snd (snd ?u))) = [None]"
    by code_simp+
  with run have 2: "\<exists>j' w'. processEmailJob ?f job0 ?w = (Inl store_down, j', w') \<and>
            error j' = Some ''No available email credentials'' \<and> status j' = Pending \<and>
            map status (jobs w') = [Processing] \<and> map retries (jobs w') = [1] \<and>
            map error (jobs w') = [None]"
    by (auto simp: Error_msg_def)
  from a b s 1 2 show ?thesis by blast
qed

text \<open>
  The claim as written fails when the store rejects both saves: the \<open>catch\<close> block's save
  throws, \<open>processEmailJob\<close> rejects instead of returning false, and the stored job is
  unchanged.
\<close>

theorem failed_attempt_counterexample:
  "fst (processEmailJob_try (env_faults (fault_at [0, 1] store_down)) job0 world0) =
     Some store_down \<and>
   fst (processEmailJob (env_faults (fault_at [0, 1] store_down)) job0 world0) = Inl store_down \<and>
   jobs (snd (snd (processEmailJob (env_faults (fault_at [0, 1] store_down)) job0 world0))) =
     [job0] \<and>
   error job0 = None"
  by (simp add: unfold_all env_faults_def fault_at_def world0_def job0_def)

section \<open>Delivery and fallback\<close>

text \<open>
  C2. In \<open>send_with_fallback\<close> the first transport uses the configured port. A second
  transport, on port 465, is opened exactly when the first send failed with code
  \<^verbatim>\<open>ETIMEDOUT\<close> and the configured port is 587, and then it is the only further one: its
  outcome is the outcome of the delivery. Any other failure of the first send is the
  outcome of the delivery. A delivery that fails makes the attempt of \<open>processEmailJob\<close>
  throw that error.
\<close>

theorem fallback_iff_timeout_on_587:
  assumes "sendEmail e c m False w = (p, w1)"
      and "send_with_fallback e c m w = (r, w')"
  shows "transport_ports (drop (length (trace w)) (trace w')) =
           (if (\<exists>x. p = Inl x \<and> code x = Some ''ETIMEDOUT'') \<and> smtp_port c = 587
            then [587, 465] else [smtp_port c])
         \<and> (case p of
              Inr i \<Rightarrow> r = Inr i
            | Inl x \<Rightarrow>
                if code x = Some ''ETIMEDOUT'' \<and> smtp_port c = 587
                then (r, w') = sendEmail e c m True w1 else r = Inl x)
         \<and> (\<forall>x job t w0.
              r = Inl x \<and> m = compose job t c \<and>
              credential_findOne e w0 = (Inr (Some c), w) \<and>
              truthy (attachmentBase64 (data job)) \<and> truthy (attachmentFilename (data job)) \<longrightarrow>
              processEmailJob_send e job t w0 = (Some x, job, w'))"
proof -
  have ports: "transport_ports (drop (length (trace w)) (trace w')) =
           (if (\<exists>x. p = Inl x \<and> code x = Some ''ETIMEDOUT'') \<and> smtp_port c = 587
            then [587, 465] else [smtp_port c])
         \<and> (case p of
              Inr i \<Rightarrow> r = Inr i
            | Inl x \<Rightarrow>
                if code x = Some ''ETIMEDOUT'' \<and> smtp_port c = 587
                then (r, w') = sendEmail e c m True w1 else r = Inl x)"
  proof (cases "(\<exists>x. p = Inl x \<and> code x = Some ''ETIMEDOUT'') \<and> smtp_port c = 587")
    case True
    then obtain x where x: "p = Inl x" "code x = Some ''ETIMEDOUT''" "smtp_port c = 587"
      by blast
    with assms have fb: "sendEmail e c m True w1 = (r, w')"
      by (simp add: send_with_fallback_def)
    from sendEmail_ports[OF assms(1)] obtain n1 where
      n1: "trace w1 = trace w @ n1" "transport_ports n1 = [smtp_port c]" by auto
    from sendEmail_ports[OF fb] obtain n2 where
      n2: "trace w' = trace w1 @ n2" "transport_ports n2 = [465]" by auto
    show ?thesis using x n1 n2 fb by (simp add: transport_ports_append)
  next
    case False
    with assms have eq: "r = p" "w' = w1"
      by (auto simp: send_with_fallback_def split: sum.splits if_splits)
    from sendEmail_ports[OF assms(1)] obtain n1 where
      n1: "trace w1 = trace w @ n1" "transport_ports n1 = [smtp_port c]" by auto
    show ?thesis using False eq n1 by (auto split: sum.splits)
  qed
  have final: "\<forall>x job t w0.
      r = Inl x \<and> m = compose job t c \<and>
      credential_findOne e w0 = (Inr (Some c), w) \<and>
      truthy (attachmentBase64 (data job)) \<and> truthy (attachmentFilename (data job)) \<longrightarrow>
      processEmailJob_send e job t w0 = (Some x, job, w')"
    using assms(2) by (auto simp: processEmailJob_send_def)
  from ports final show ?thesis by blast
qed

text \<open>
  A run of the theorem: port 587 times out, a second transport is opened on port 465 and
  delivers.
\<close>

theorem fallback_iff_timeout_on_587_witness:
  "fst (sendEmail (env_faults (fault_at [0] timed_out)) cred0 (compose job0 ticket0 cred0)
          False world0) = Inl timed_out \<and>
   transport_ports (drop (length (trace world0))
     (trace (snd (send_with_fallback (env_faults (fault_at [0] timed_out)) cred0
          (compose job0 ticket0 cred0) world0)))) = [587, 465] \<and>
   fst (send_with_fallback (env_faults (fault_at [0] timed_out)) cred0
          (compose job0 ticket0 cred0) world0) = Inr ''m1''"
proof -
  let ?m = "compose job0 ticket0 cred0"
  let ?e = "env_faults (fault_at [0] timed_out)"
  have p: "sendEmail ?e cred0 ?m False world0 =
             (Inl timed_out, snd (sendEmail ?e cred0 ?m False world0))"
    by (simp add: sendEmail_def io_def Let_def env_faults_def fault_at_def world0_def)
  have r: "send_with_fallback ?e cred0 ?m world0 =
             (Inr ''m1'', snd (send_with_fallback ?e cred0 ?m world0))"
    by (simp add: send_with_fallback_def sendEmail_def io_def Let_def env_faults_def fault_at_def
          world0_def cred0_def timed_out_def)
  have c: "code timed_out = Some ''ETIMEDOUT''" "smtp_port cred0 = 587"
    by (simp_all add: timed_out_def cred0_def)
  from fallback_iff_timeout_on_587[OF p r, THEN conjunct1] c
  have "transport_ports (drop (length (trace world0))
          (trace (snd (send_with_fallback ?e cred0 ?m world0)))) = [587, 465]"
    by simp
  moreover from p have "fst (sendEmail ?e cred0 ?m False world0) = Inl timed_out"
    by (metis fst_conv)
  moreover from r have "fst (send_with_fallback ?e cred0 ?m world0) = Inr ''m1''"
    by (metis fst_conv)
  ultimately show ?thesis by blast
qed

section \<open>Order of writes\<close>








section \<open>Commit of a success\<close>






lemma delivered_append: "delivered (xs @ ys) = delivered xs @ delivered ys"
  by (induction xs rule: delivered.induct) auto



lemma sendEmail_Inl:
  "sendEmail e c m u w = (Inl x, w') \<Longrightarrow>
   jobs w' = jobs w \<and> tickets w' = tickets w \<and> credentials w' = credentials w \<and>
   (\<exists>new. trace w' = trace w @ new \<and> tick w' = tick w + length new \<and>
      delivered new = [] \<and> accepted_ticks (tick w) new = [])"
  by (auto simp: sendEmail_def io_def Let_def split: option.splits)








section \<open>Credential selection\<close>





section \<open>The poll query\<close>

lemma claimed_ids_append: "claimed_ids (xs @ ys) = claimed_ids xs @ claimed_ids ys"
  by (induction xs rule: claimed_ids.induct) auto

lemma claimed_ids_none:
  "\<forall>j y. (JobSave j, y) \<in> set xs \<longrightarrow> status j \<noteq> Processing \<Longrightarrow> claimed_ids xs = []"
  by (induction xs rule: claimed_ids.induct) auto

lemma processEmailJob_claimed:
  assumes "processEmailJob e job w = (r, j', w')"
  shows "\<exists>new. trace w' = trace w @ new \<and> claimed_ids new = [job_id job]"
proof -
  obtain x j1 w1 where t: "processEmailJob_try e job w = (x, j1, w1)"
    by (cases "processEmailJob_try e job w")
  from try_trace[OF t] obtain rest where rest:
    "trace w1 = trace w @ (JobSave (job\<lparr>status := Processing, retries := retries job + 1,
        updated_at := now e (tick w)\<rparr>), fault e (tick w)) # rest"
    "\<forall>j y. (JobSave j, y) \<in> set rest \<longrightarrow> status j = Completed" by blast
  from rest(2) have c0: "claimed_ids rest = []" by (intro claimed_ids_none) auto
  show ?thesis
  proof (cases x)
    case None
    with t assms have "w' = w1" by (simp add: processEmailJob_def)
    with rest(1) c0 show ?thesis by simp
  next
    case (Some a)
    with t assms have c: "processEmailJob_catch e a j1 w1 = (r, j', w')"
      by (simp add: processEmailJob_def)
    then have "trace w' = trace w1 @ [(JobSave j', fault e (tick w1))]"
      and "status j' \<noteq> Processing"
      by (auto simp: processEmailJob_catch_def job_save_def io_def Let_def
            split: option.splits if_splits)
    with rest(1) c0 show ?thesis by (simp add: claimed_ids_append)
  qed
qed

lemma process_batch_claimed:
  "process_batch e js w = (r, w') \<Longrightarrow>
   \<exists>new k. trace w' = trace w @ new \<and> claimed_ids new = take k (map job_id js) \<and>
           (r = None \<longrightarrow> claimed_ids new = map job_id js)"
proof (induction js arbitrary: w)
  case Nil
  then show ?case by auto
next
  case (Cons j js)
  obtain q j' w1 where p: "processEmailJob e j w = (q, j', w1)"
    by (cases "processEmailJob e j w")
  from processEmailJob_claimed[OF p] obtain n1 where n1:
    "trace w1 = trace w @ n1" "claimed_ids n1 = [job_id j]" by blast
  show ?case
  proof (cases q)
    case (Inl x)
    with Cons.prems p have "r = Some x" "w' = w1" by auto
    with n1 have "trace w' = trace w @ n1 \<and> claimed_ids n1 = take 1 (map job_id (j # js)) \<and>
        (r = None \<longrightarrow> claimed_ids n1 = map job_id (j # js))" by simp
    then show ?thesis by blast
  next
    case (Inr b)
    with Cons.prems p have "process_batch e js w1 = (r, w')" by simp
    from Cons.IH[OF this] obtain n2 k where n2:
      "trace w' = trace w1 @ n2" "claimed_ids n2 = take k (map job_id js)"
      "r = None \<longrightarrow> claimed_ids n2 = map job_id js" by blast
    have "trace w' = trace w @ (n1 @ n2)" using n1 n2 by simp
    moreover have "claimed_ids (n1 @ n2) = take (Suc k) (map job_id (j # js))"
      using n1 n2 by (simp add: claimed_ids_append)
    moreover have "r = None \<longrightarrow> claimed_ids (n1 @ n2) = map job_id (j # js)"
      using n1 n2 by (simp add: claimed_ids_append)
    ultimately show ?thesis by blast
  qed
qed

lemma pollJobs_claimed:
  assumes "pollJobs e w = (r, w')"
  shows "(\<exists>k. claimed_ids (drop (length (trace w)) (trace w')) =
               take k (map job_id (poll_query (jobs w)))) \<and>
         (r = None \<longrightarrow> claimed_ids (drop (length (trace w)) (trace w')) =
               map job_id (poll_query (jobs w)))"
proof (cases "fault e (tick w)")
  case (Some x)
  with assms have "trace w' = trace w @ [(JobFind, Some x)]" "r = Some x"
    by (auto simp: pollJobs_def job_find_def io_def)
  then have "claimed_ids (drop (length (trace w)) (trace w')) =
      take 0 (map job_id (poll_query (jobs w)))" by simp
  with \<open>r = Some x\<close> show ?thesis by blast
next
  case None
  let ?w1 = "w\<lparr>tick := Suc (tick w), trace := trace w @ [(JobFind, None)]\<rparr>"
  from None assms have b: "process_batch e (poll_query (jobs w)) ?w1 = (r, w')"
    by (auto simp: pollJobs_def job_find_def io_def)
  from process_batch_claimed[OF b] obtain new k where n:
    "trace w' = trace ?w1 @ new" "claimed_ids new = take k (map job_id (poll_query (jobs w)))"
    "r = None \<longrightarrow> claimed_ids new = map job_id (poll_query (jobs w))" by blast
  from n(1) have "drop (length (trace w)) (trace w') = (JobFind, None) # new" by simp
  with n show ?thesis by auto
qed

lemma take_sorted_complete:
  assumes "sorted (map k xs)" and "j \<in> set xs" and "j \<notin> set (take n xs)"
  shows "length (take n xs) = n \<and> (\<forall>p \<in> set (take n xs). k p \<le> k j)"
proof -
  have split: "xs = take n xs @ drop n xs" by simp
  with assms(2,3) have d: "j \<in> set (drop n xs)"
    by (metis Un_iff set_append)
  then have "n < length xs" by (cases "n < length xs") auto
  then have l: "length (take n xs) = n" by simp
  from assms(1) have "sorted (map k (take n xs) @ map k (drop n xs))"
    by (metis split map_append)
  then have "\<forall>a \<in> set (map k (take n xs)). \<forall>b \<in> set (map k (drop n xs)). a \<le> b"
    by (simp add: sorted_append)
  with d have "\<forall>p \<in> set (take n xs). k p \<le> k j" by auto
  with l show ?thesis by simp
qed

lemma served_before_key:
  "served_before j k \<longleftrightarrow> (- priorityA j, created_atA j) \<le> (- priorityA k, created_atA k)"
  by (auto simp: served_before_def less_eq_prod_def)

text \<open>
  C6 (as amended). The poll query returns at most five jobs; each is a stored job with
  \<open>job_type = send_email\<close>, \<open>status = Pending\<close> and \<open>retries < 3\<close>, a fixed ceiling (the
  job's own \<open>maxRetries\<close> is not consulted); they are in ascending order of creation time;
  and a matching job is left out only when five jobs no younger than it were taken. In the
  variant with priorities the ceiling is \<open>MAX_ATTEMPTS || 3\<close>, and the order is descending
  priority, then ascending creation time. A poll cycle claims the jobs of the query in
  that order, and all of them unless a \<open>processEmailJob\<close> rejects.
\<close>

theorem poll_selection:
  "length (poll_query js) \<le> 5 \<and>
   (\<forall>j \<in> set (poll_query js).
      j \<in> set js \<and> job_type j = send_email \<and> status j = Pending \<and> retries j < 3) \<and>
   sorted (map created_at (poll_query js)) \<and>
   (\<forall>j \<in> set js.
      job_type j = send_email \<and> status j = Pending \<and> retries j < 3 \<and>
      j \<notin> set (poll_query js) \<longrightarrow>
      length (poll_query js) = 5 \<and> (\<forall>p \<in> set (poll_query js). created_at p \<le> created_at j)) \<and>
   length (poll_queryA m as) \<le> 5 \<and>
   (\<forall>j \<in> set (poll_queryA m as).
      j \<in> set as \<and> job_typeA j = send_emailA \<and> statusA j = PendingA \<and>
      attemptsA j < attempts_ceiling m) \<and>
   attempts_ceiling None = 3 \<and>
   sorted_wrt served_before (poll_queryA m as) \<and>
   (\<forall>j \<in> set as.
      job_typeA j = send_emailA \<and> statusA j = PendingA \<and> attemptsA j < attempts_ceiling m \<and>
      j \<notin> set (poll_queryA m as) \<longrightarrow>
      length (poll_queryA m as) = 5 \<and> (\<forall>p \<in> set (poll_queryA m as). served_before p j)) \<and>
   (pollJobs e w = (r, w') \<longrightarrow>
      (\<exists>k. claimed_ids (drop (length (trace w)) (trace w')) =
            take k (map job_id (poll_query (jobs w)))) \<and>
      (r = None \<longrightarrow> claimed_ids (drop (length (trace w)) (trace w')) =
            map job_id (poll_query (jobs w))))"
proof -
  let ?xs = "sort_key created_at (filter poll_filter js)"
  let ?key = "\<lambda>j. (- priorityA j, created_atA j)"
  let ?ys = "sort_key ?key (filter (poll_filterA m) as)"
  have 1: "length (poll_query js) \<le> 5" by (simp add: poll_query_def)
  have 2: "\<forall>j \<in> set (poll_query js).
      j \<in> set js \<and> job_type j = send_email \<and> status j = Pending \<and> retries j < 3"
    by (auto simp: poll_query_def poll_filter_def dest!: in_set_takeD)
  have sx: "sorted (map created_at ?xs)" by simp
  have 3: "sorted (map created_at (poll_query js))"
    using sorted_wrt_take[OF sx, of 5] by (simp add: poll_query_def take_map)
  have 4: "\<forall>j \<in> set js.
      job_type j = send_email \<and> status j = Pending \<and> retries j < 3 \<and>
      j \<notin> set (poll_query js) \<longrightarrow>
      length (poll_query js) = 5 \<and> (\<forall>p \<in> set (poll_query js). created_at p \<le> created_at j)"
  proof (intro ballI impI)
    fix j assume "j \<in> set js"
      and "job_type j = send_email \<and> status j = Pending \<and> retries j < 3 \<and>
           j \<notin> set (poll_query js)"
    then have "j \<in> set ?xs" "j \<notin> set (take 5 ?xs)"
      by (simp_all add: poll_filter_def poll_query_def)
    from take_sorted_complete[OF sx this]
    show "length (poll_query js) = 5 \<and> (\<forall>p \<in> set (poll_query js). created_at p \<le> created_at j)"
      by (simp add: poll_query_def)
  qed
  have 5: "length (poll_queryA m as) \<le> 5" by (simp add: poll_queryA_def)
  have 6: "\<forall>j \<in> set (poll_queryA m as).
      j \<in> set as \<and> job_typeA j = send_emailA \<and> statusA j = PendingA \<and>
      attemptsA j < attempts_ceiling m"
    by (auto simp: poll_queryA_def poll_filterA_def dest!: in_set_takeD)
  have 7: "attempts_ceiling None = 3" by (simp add: attempts_ceiling_def)
  have sy: "sorted (map ?key ?ys)" by simp
  then have "sorted_wrt (\<lambda>j k. ?key j \<le> ?key k) ?ys" by (simp add: sorted_map)
  then have "sorted_wrt served_before ?ys"
    by (rule sorted_wrt_mono_rel[rotated]) (simp add: served_before_key)
  then have 8: "sorted_wrt served_before (poll_queryA m as)"
    unfolding poll_queryA_def by (rule sorted_wrt_take)
  have 9: "\<forall>j \<in> set as.
      job_typeA j = send_emailA \<and> statusA j = PendingA \<and> attemptsA j < attempts_ceiling m \<and>
      j \<notin> set (poll_queryA m as) \<longrightarrow>
      length (poll_queryA m as) = 5 \<and> (\<forall>p \<in> set (poll_queryA m as). served_before p j)"
  proof (intro ballI impI)
    fix j assume "j \<in> set as"
      and "job_typeA j = send_emailA \<and> statusA j = PendingA \<and>
           attemptsA j < attempts_ceiling m \<and> j \<notin> set (poll_queryA m as)"
    then have "j \<in> set ?ys" "j \<notin> set (take 5 ?ys)"
      by (simp_all add: poll_filterA_def poll_queryA_def)
    from take_sorted_complete[OF sy this]
    show "length (poll_queryA m as) = 5 \<and> (\<forall>p \<in> set (poll_queryA m as). served_before p j)"
      by (simp add: poll_queryA_def served_before_key)
  qed
  have 10: "pollJobs e w = (r, w') \<longrightarrow>
      (\<exists>k. claimed_ids (drop (length (trace w)) (trace w')) =
            take k (map job_id (poll_query (jobs w)))) \<and>
      (r = None \<longrightarrow> claimed_ids (drop (length (trace w)) (trace w')) =
            map job_id (poll_query (jobs w)))"
    using pollJobs_claimed by blast
  from 1 2 3 4 5 6 7 8 9 10 show ?thesis by blast
qed

text \<open>
  A run of the theorem: of three stored jobs the query takes the two pending ones, older
  first, and the poll cycle claims them in that order; with priorities, the job of priority
  10 comes first and the two of priority 0 follow, older first.
\<close>

theorem poll_selection_witness:
  "poll_query (jobs world1) = [job0, job1] \<and>
   length (poll_query (jobs world1)) \<le> 5 \<and>
   sorted (map created_at (poll_query (jobs world1))) \<and>
   poll_queryA None [jobA0, jobA1, jobA2] = [jobA1, jobA2, jobA0] \<and>
   sorted_wrt served_before (poll_queryA None [jobA0, jobA1, jobA2]) \<and>
   fst (pollJobs (env_faults (\<lambda>n. None)) world1) = None \<and>
   claimed_ids (drop (length (trace world1))
      (trace (snd (pollJobs (env_faults (\<lambda>n. None)) world1)))) = [''j1'', ''j2'']"
proof -
  let ?e = "env_faults (\<lambda>n. None)"
  let ?p = "pollJobs ?e world1"
  note T = poll_selection[of "jobs world1" None "[jobA0, jobA1, jobA2]" ?e world1 None "snd ?p"]
  have q: "poll_query (jobs world1) = [job0, job1]"
    by (simp add: poll_query_def poll_filter_def world1_def world0_def job0_def job1_def job2_def)
  have qa: "poll_queryA None [jobA0, jobA1, jobA2] = [jobA1, jobA2, jobA0]"
    by (simp add: poll_queryA_def poll_filterA_def attempts_ceiling_def jobA0_def jobA1_def
          jobA2_def less_eq_prod_def)
  have "fst ?p = None" by code_simp
  then have run: "?p = (None, snd ?p)" by (metis prod.collapse)
  from T run have "claimed_ids (drop (length (trace world1)) (trace (snd ?p))) =
      map job_id (poll_query (jobs world1))" by blast
  then have c: "claimed_ids (drop (length (trace world1)) (trace (snd ?p))) = [''j1'', ''j2'']"
    by (simp add: q job0_def job1_def)
  from T have "length (poll_query (jobs world1)) \<le> 5"
    and "sorted (map created_at (poll_query (jobs world1)))"
    and "sorted_wrt served_before (poll_queryA None [jobA0, jobA1, jobA2])"
    by blast+
  with q qa c \<open>fst ?p = None\<close> show ?thesis by blast
qed

text \<open>
  The claim as written fails for a job whose \<open>maxRetries\<close> is not 3. A job that allows five
  attempts and fails its third one is stored as \<open>Pending\<close> with \<open>retries = 3 < maxRetries\<close>,
  and the query never selects it again; and a pending job with \<open>retries = maxRetries = 1\<close> is
  selected.
\<close>

theorem poll_selection_counterexample:
  "poll_query [job5] = [job5] \<and>
   map job_type (jobs (snd (snd (processEmailJob (env_faults (\<lambda>n. None)) job5
      (world0\<lparr>jobs := [job5], credentials := []\<rparr>))))) = [send_email] \<and>
   map status (jobs (snd (snd (processEmailJob (env_faults (\<lambda>n. None)) job5
      (world0\<lparr>jobs := [job5], credentials := []\<rparr>))))) = [Pending] \<and>
   map retries (jobs (snd (snd (processEmailJob (env_faults (\<lambda>n. None)) job5
      (world0\<lparr>jobs := [job5], credentials := []\<rparr>))))) = [3] \<and>
   map maxRetries (jobs (snd (snd (processEmailJob (env_faults (\<lambda>n. None)) job5
      (world0\<lparr>jobs := [job5], credentials := []\<rparr>))))) = [5] \<and>
   poll_query (jobs (snd (snd (processEmailJob (env_faults (\<lambda>n. None)) job5
      (world0\<lparr>jobs := [job5], credentials := []\<rparr>))))) = [] \<and>
   status (job0\<lparr>retries := 1, maxRetries := 1\<rparr>) = Pending \<and>
   \<not> retries (job0\<lparr>retries := 1, maxRetries := 1\<rparr>) < maxRetries (job0\<lparr>retries := 1, maxRetries := 1\<rparr>) \<and>
   poll_query [job0\<lparr>retries := 1, maxRetries := 1\<rparr>] = [job0\<lparr>retries := 1, maxRetries := 1\<rparr>]"
  by (simp add: poll_query_def poll_filter_def unfold_all env_faults_def world0_def job0_def
        job5_def ticket0_def truthy_def or_default_def find_ticket_def)

section \<open>Errors that leave \<open>processEmailJob\<close>\<close>






section \<open>Terminal states\<close>

lemma processEmailJob_others:
  "processEmailJob e job w = (r, j', w') \<Longrightarrow> i \<noteq> job_id job \<Longrightarrow>
   find_job i (jobs w') = find_job i (jobs w)"
  by (auto simp: unfold_all find_job_replace_other
        split: option.splits sum.splits if_splits prod.splits)

lemma process_batch_others:
  "process_batch e js w = (r, w') \<Longrightarrow> \<forall>p \<in> set js. job_id p \<noteq> i \<Longrightarrow>
   find_job i (jobs w') = find_job i (jobs w)"
proof (induction js arbitrary: w)
  case Nil
  then show ?case by simp
next
  case (Cons j js)
  obtain q j' w1 where p: "processEmailJob e j w = (q, j', w1)"
    by (cases "processEmailJob e j w")
  from Cons.prems(2) have ne: "i \<noteq> job_id j" by auto
  note o = processEmailJob_others[OF p ne]
  show ?case
  proof (cases q)
    case (Inl x)
    with Cons.prems p have "w' = w1" by auto
    with o show ?thesis by simp
  next
    case (Inr b)
    with Cons.prems p have "process_batch e js w1 = (r, w')" by simp
    from Cons.IH[OF this] Cons.prems(2) o show ?thesis by simp
  qed
qed

lemma find_job_distinct:
  "distinct (map job_id js) \<Longrightarrow> j \<in> set js \<Longrightarrow> find_job (job_id j) js = Some j"
  by (induction js) (auto simp: find_job_def)

lemma poll_query_pending: "p \<in> set (poll_query js) \<Longrightarrow> p \<in> set js \<and> status p = Pending"
  by (auto simp: poll_query_def poll_filter_def dest!: in_set_takeD)

text \<open>
  C8 (as amended). A job that is \<open>Completed\<close> or \<open>Failed\<close> when a poll cycle starts is not
  changed by that cycle (document ids being unique): the query selects only \<open>Pending\<close> jobs
  and \<open>processEmailJob\<close> writes only the job it was given.
\<close>

theorem terminal_untouched_by_poll:
  assumes "distinct (map job_id (jobs w))"
      and "j \<in> set (jobs w)"
      and "status j = Completed \<or> status j = Failed"
      and "pollJobs e w = (r, w')"
  shows "find_job (job_id j) (jobs w') = Some j"
proof -
  have start: "find_job (job_id j) (jobs w) = Some j"
    using assms(1,2) by (rule find_job_distinct)
  show ?thesis
  proof (cases "fault e (tick w)")
    case (Some x)
    with assms(4) have "jobs w' = jobs w"
      by (auto simp: pollJobs_def job_find_def io_def)
    with start show ?thesis by simp
  next
    case None
    let ?w1 = "w\<lparr>tick := Suc (tick w), trace := trace w @ [(JobFind, None)]\<rparr>"
    from None assms(4) have b: "process_batch e (poll_query (jobs w)) ?w1 = (r, w')"
      by (auto simp: pollJobs_def job_find_def io_def)
    have "\<forall>p \<in> set (poll_query (jobs w)). job_id p \<noteq> job_id j"
    proof
      fix p assume "p \<in> set (poll_query (jobs w))"
      then have p: "p \<in> set (jobs w)" "status p = Pending" by (simp_all add: poll_query_pending)
      with assms(3) have "p \<noteq> j" by auto
      with assms(1,2) p(1) show "job_id p \<noteq> job_id j"
        by (meson distinct_map inj_onD)
    qed
    from process_batch_others[OF b this] start show ?thesis by simp
  qed
qed

text \<open>
  A run of the theorem: a poll cycle over two pending jobs and a completed one leaves the
  completed one as it was.
\<close>

theorem terminal_untouched_by_poll_witness:
  "distinct (map job_id (jobs world1)) \<and> job2 \<in> set (jobs world1) \<and> status job2 = Completed \<and>
   find_job (job_id job2) (jobs (snd (pollJobs (env_faults (\<lambda>n. None)) world1))) = Some job2 \<and>
   map status (jobs (snd (pollJobs (env_faults (\<lambda>n. None)) world1))) =
     [Completed, Completed, Completed]"
proof -
  let ?p = "pollJobs (env_faults (\<lambda>n. None)) world1"
  have d: "distinct (map job_id (jobs world1))"
    by (simp add: world1_def world0_def job0_def job1_def job2_def)
  have m: "job2 \<in> set (jobs world1)" by (simp add: world1_def)
  have s: "status job2 = Completed" by (simp add: job2_def)
  then have s': "status job2 = Completed \<or> status job2 = Failed" by simp
  have run: "?p = (fst ?p, snd ?p)" by simp
  note T = terminal_untouched_by_poll[OF d m s' run]
  have "map status (jobs (snd ?p)) = [Completed, Completed, Completed]" by code_simp
  with d m s T show ?thesis by blast
qed

text \<open>
  The claim as written fails inside one run of \<open>processEmailJob\<close>: the job is saved as
  \<open>Completed\<close>, the ticket save that follows throws, and the \<open>catch\<close> block saves the same job
  as \<open>Pending\<close>. All three saves succeed, so the stored job leaves \<open>Completed\<close>.
\<close>

theorem terminal_untouched_counterexample:
  "saved_statuses (trace (snd (snd (processEmailJob (env_faults (fault_at [7] store_down))
       job0 world0)))) = [(Processing, None), (Completed, None), (Pending, None)] \<and>
   fst (processEmailJob (env_faults (fault_at [7] store_down)) job0 world0) = Inr False \<and>
   map status (jobs (snd (snd (processEmailJob (env_faults (fault_at [7] store_down))
       job0 world0)))) = [Pending]"
  by code_simp

section \<open>The message\<close>

lemma sent_messages_append: "sent_messages (xs @ ys) = sent_messages xs @ sent_messages ys"
  by (induction xs rule: sent_messages.induct) auto

lemma sendEmail_messages:
  "sendEmail e c m u w = (r, w') \<Longrightarrow>
   \<exists>new. trace w' = trace w @ new \<and> set (sent_messages new) \<subseteq> {m}"
  by (auto simp: sendEmail_def io_def Let_def split: option.splits)

lemma send_with_fallback_messages:
  assumes "send_with_fallback e c m w = (r, w')"
  shows "\<exists>new. trace w' = trace w @ new \<and> set (sent_messages new) \<subseteq> {m}"
proof -
  obtain p w1 where p: "sendEmail e c m False w = (p, w1)" by (cases "sendEmail e c m False w")
  from sendEmail_messages[OF p] obtain n1 where n1:
    "trace w1 = trace w @ n1" "set (sent_messages n1) \<subseteq> {m}" by blast
  show ?thesis
  proof (cases "(r, w') = (p, w1)")
    case True
    with n1 show ?thesis by auto
  next
    case False
    with assms p have "sendEmail e c m True w1 = (r, w')"
      by (auto simp: send_with_fallback_def split: sum.splits if_splits)
    from sendEmail_messages[OF this] obtain n2 where n2:
      "trace w' = trace w1 @ n2" "set (sent_messages n2) \<subseteq> {m}" by blast
    have "trace w' = trace w @ (n1 @ n2)" using n1 n2 by simp
    moreover have "set (sent_messages (n1 @ n2)) \<subseteq> {m}"
      using n1 n2 by (simp add: sent_messages_append)
    ultimately show ?thesis by blast
  qed
qed

lemma commit_messages:
  "processEmailJob_commit e job t c mid w = (r, j', w') \<Longrightarrow>
   \<exists>new. trace w' = trace w @ new \<and> sent_messages new = []"
  by (auto simp: processEmailJob_commit_def credential_inc_def job_save_def ticket_save_def
        io_def Let_def split: option.splits)

lemma send_messages:
  assumes "processEmailJob_send e job t w = (r, j', w')"
  shows "\<exists>new. trace w' = trace w @ new \<and>
     (sent_messages new = [] \<or>
      (\<exists>c. find eligible (credentials w) = Some c \<and>
           set (sent_messages new) \<subseteq> {compose job t c}))"
proof -
  obtain q w1 where f: "credential_findOne e w = (q, w1)" by (cases "credential_findOne e w")
  then have w1: "trace w1 = trace w @ [(CredentialFindOne, fault e (tick w))]"
    "credentials w1 = credentials w"
    by (auto simp: credential_findOne_def io_def split: option.splits)
  show ?thesis
  proof (cases "\<exists>c. q = Inr (Some c) \<and> truthy (attachmentBase64 (data job)) \<and>
                     truthy (attachmentFilename (data job))")
    case False
    with assms f have "w' = w1"
      by (auto simp: processEmailJob_send_def split: sum.splits option.splits if_splits)
    with w1 show ?thesis by simp
  next
    case True
    then obtain c where c: "q = Inr (Some c)" "truthy (attachmentBase64 (data job))"
      "truthy (attachmentFilename (data job))" by blast
    with f have fe: "find eligible (credentials w) = Some c"
      by (auto simp: credential_findOne_def io_def split: option.splits)
    obtain p w2 where s: "send_with_fallback e c (compose job t c) w1 = (p, w2)"
      by (cases "send_with_fallback e c (compose job t c) w1")
    from send_with_fallback_messages[OF s] obtain n1 where n1:
      "trace w2 = trace w1 @ n1" "set (sent_messages n1) \<subseteq> {compose job t c}" by blast
    show ?thesis
    proof (cases p)
      case (Inl x)
      with assms f c s have "w' = w2" by (auto simp: processEmailJob_send_def)
      with w1 n1 have "trace w' = trace w @ ((CredentialFindOne, fault e (tick w)) # n1)"
        and "set (sent_messages ((CredentialFindOne, fault e (tick w)) # n1)) \<subseteq>
              {compose job t c}" by simp_all
      with fe show ?thesis by blast
    next
      case (Inr mid)
      with assms f c s have "processEmailJob_commit e job t c mid w2 = (r, j', w')"
        by (auto simp: processEmailJob_send_def)
      from commit_messages[OF this] obtain n2 where n2:
        "trace w' = trace w2 @ n2" "sent_messages n2 = []" by blast
      from w1 n1 n2 have
        "trace w' = trace w @ ((CredentialFindOne, fault e (tick w)) # n1 @ n2)"
        and "set (sent_messages ((CredentialFindOne, fault e (tick w)) # n1 @ n2)) \<subseteq>
              {compose job t c}" by (simp_all add: sent_messages_append)
      with fe show ?thesis by blast
    qed
  qed
qed






section \<open>Errors after the delivery\<close>

lemma send_with_fallback_Inl:
  assumes "send_with_fallback e c m w = (Inl x, w')"
  shows "\<exists>new. trace w' = trace w @ new \<and> delivered new = []"
proof -
  obtain p w1 where p: "sendEmail e c m False w = (p, w1)" by (cases "sendEmail e c m False w")
  with assms obtain x0 where x0: "p = Inl x0"
    by (cases p) (auto simp: send_with_fallback_def)
  from sendEmail_Inl[of e c m False w x0 w1] p x0 obtain n1 where n1:
    "trace w1 = trace w @ n1" "delivered n1 = []" by blast
  show ?thesis
  proof (cases "w' = w1")
    case True
    with n1 show ?thesis by blast
  next
    case False
    with assms p x0 have "sendEmail e c m True w1 = (Inl x, w')"
      by (auto simp: send_with_fallback_def split: if_splits)
    from sendEmail_Inl[OF this] obtain n2 where n2:
      "trace w' = trace w1 @ n2" "delivered n2 = []" by blast
    have "trace w' = trace w @ (n1 @ n2)" using n1 n2 by simp
    moreover have "delivered (n1 @ n2) = []" using n1 n2 by (simp add: delivered_append)
    ultimately show ?thesis by blast
  qed
qed

lemma commit_failure:
  "processEmailJob_commit e job t c mid w = (Some x, j', w') \<Longrightarrow>
   trace w' \<noteq> [] \<and> snd (last (trace w')) = Some x \<and> is_commit_write (fst (last (trace w')))"
  by (auto simp: processEmailJob_commit_def credential_inc_def job_save_def ticket_save_def
        io_def Let_def split: option.splits)

lemma send_failure:
  assumes "processEmailJob_send e job t w = (Some x, j', w')"
  shows "delivered (drop (length (trace w)) (trace w')) = [] \<or>
         (trace w' \<noteq> [] \<and> snd (last (trace w')) = Some x \<and>
          is_commit_write (fst (last (trace w'))))"
proof -
  obtain q w1 where f: "credential_findOne e w = (q, w1)" by (cases "credential_findOne e w")
  then have w1: "trace w1 = trace w @ [(CredentialFindOne, fault e (tick w))]"
    by (auto simp: credential_findOne_def io_def split: option.splits)
  show ?thesis
  proof (cases "\<exists>c. q = Inr (Some c) \<and> truthy (attachmentBase64 (data job)) \<and>
                     truthy (attachmentFilename (data job))")
    case False
    with assms f have "w' = w1"
      by (auto simp: processEmailJob_send_def split: sum.splits option.splits if_splits)
    with w1 show ?thesis by simp
  next
    case True
    then obtain c where c: "q = Inr (Some c)" "truthy (attachmentBase64 (data job))"
      "truthy (attachmentFilename (data job))" by blast
    obtain p w2 where s: "send_with_fallback e c (compose job t c) w1 = (p, w2)"
      by (cases "send_with_fallback e c (compose job t c) w1")
    show ?thesis
    proof (cases p)
      case (Inl y)
      with assms f c s have "w' = w2" by (auto simp: processEmailJob_send_def)
      moreover from send_with_fallback_Inl[of e c "compose job t c" w1 y w2] s Inl
      obtain n where "trace w2 = trace w1 @ n" "delivered n = []" by blast
      ultimately show ?thesis using w1 by simp
    next
      case (Inr mid)
      with assms f c s have "processEmailJob_commit e job t c mid w2 = (Some x, j', w')"
        by (auto simp: processEmailJob_send_def)
      from commit_failure[OF this] show ?thesis by simp
    qed
  qed
qed

lemma try_failure:
  assumes "processEmailJob_try e job w = (Some x, j', w')"
  shows "delivered (drop (length (trace w)) (trace w')) = [] \<or>
         (trace w' \<noteq> [] \<and> snd (last (trace w')) = Some x \<and>
          is_commit_write (fst (last (trace w'))))"
proof -
  let ?claim = "job\<lparr>status := Processing, retries := retries job + 1,
                     updated_at := now e (tick w)\<rparr>"
  obtain q w1 where sv: "job_save e ?claim w = (q, w1)" by (cases "job_save e ?claim w")
  then have w1: "trace w1 = trace w @ [(JobSave ?claim, fault e (tick w))]"
    by (auto simp: job_save_def io_def split: option.splits)
  show ?thesis
  proof (cases "q = None \<and> truthy (ticketId (data job))")
    case False
    with assms sv have "w' = w1"
      by (auto simp: processEmailJob_try_def processEmailJob_resolve_def Let_def
            split: option.splits)
    with w1 show ?thesis by simp
  next
    case True
    let ?tid = "or_default (ticketId (data ?claim)) []"
    obtain u w2 where fd: "ticket_findById e ?tid w1 = (u, w2)"
      by (cases "ticket_findById e ?tid w1")
    from ticket_findById_eq[OF fd]
    have w2: "trace w2 = trace w1 @
        [(TicketFindById ?tid, case u of Inl x \<Rightarrow> Some x | Inr t \<Rightarrow> None)]"
      by simp
    show ?thesis
    proof (cases "\<exists>t. u = Inr (Some t)")
      case False
      with assms sv True fd have "w' = w2"
        by (auto simp: processEmailJob_try_def processEmailJob_resolve_def Let_def
              split: sum.splits option.splits)
      with w1 w2 show ?thesis by simp
    next
      case True
      then obtain t where t: "u = Inr (Some t)" by blast
      from assms sv \<open>q = None \<and> truthy (ticketId (data job))\<close> fd t
      have sd: "processEmailJob_send e ?claim t w2 = (Some x, j', w')"
        by (auto simp: processEmailJob_try_def processEmailJob_resolve_def Let_def)
      have "\<exists>n. trace w' = trace w2 @ n"
        using send_messages[OF sd] by blast
      then obtain n where n: "trace w' = trace w2 @ n" by blast
      from send_failure[OF sd] show ?thesis
      proof
        assume "delivered (drop (length (trace w2)) (trace w')) = []"
        with n have "delivered n = []" by simp
        with n w1 w2 show ?thesis by simp
      next
        assume "trace w' \<noteq> [] \<and> snd (last (trace w')) = Some x \<and>
          is_commit_write (fst (last (trace w')))"
        then show ?thesis by blast
      qed
    qed
  qed
qed

text \<open>
  C10 (as amended). If the \<open>try\<close> block of \<open>processEmailJob\<close> throws after the server
  accepted the message, the error comes from one of the writes that follow the delivery
  (the usage increment, the save of the completed job, the ticket save). The \<open>catch\<close>
  block then sets the job to \<open>Pending\<close> or \<open>Failed\<close> with that error message and saves it.
  When that save succeeds, the state is stored and \<open>processEmailJob\<close> returns false,
  although the email was delivered; a job stored as \<open>Pending\<close> this way, with fewer than
  three retries, matches the poll query again. When that save throws as well,
  \<open>processEmailJob\<close> rejects with its error, and the stored job stays as the \<open>try\<close> block
  left it: \<open>Processing\<close> or \<open>Completed\<close>, without the error of the attempt.
\<close>

theorem post_delivery_error:
  assumes "processEmailJob_try e job w = (Some x, j1, w1)"
      and "delivered (drop (length (trace w)) (trace w1)) \<noteq> []"
      and "find_job (job_id job) (jobs w) \<noteq> None"
  shows "snd (last (trace w1)) = Some x \<and> is_commit_write (fst (last (trace w1))) \<and>
         (\<exists>r j' w'. processEmailJob e job w = (r, j', w') \<and>
            delivered (drop (length (trace w)) (trace w')) =
              delivered (drop (length (trace w)) (trace w1)) \<and>
            error j' = Some (message x) \<and>
            status j' = (if retries job + 1 \<ge> maxRetries job then Failed else Pending) \<and>
            (fault e (tick w1) = None \<longrightarrow>
               r = Inr False \<and> find_job (job_id job) (jobs w') = Some j' \<and>
               (job_type job = send_email \<and> retries job + 1 < maxRetries job \<and>
                retries job + 1 < 3 \<longrightarrow> poll_filter j')) \<and>
            (\<forall>y. fault e (tick w1) = Some y \<longrightarrow>
               r = Inl y \<and> jobs w' = jobs w1 \<and>
               (\<exists>s. find_job (job_id job) (jobs w') = Some s \<and>
                    (status s = Processing \<or> status s = Completed) \<and>
                    retries s = retries job + 1 \<and> error s = error job)))"
proof -
  let ?claim = "job\<lparr>status := Processing, retries := retries job + 1,
                     updated_at := now e (tick w)\<rparr>"
  from try_failure[OF assms(1)] assms(2)
  have cw: "snd (last (trace w1)) = Some x" "is_commit_write (fst (last (trace w1)))"
    by auto
  from try_trace[OF assms(1)] obtain rest where rest:
    "trace w1 = trace w @ (JobSave ?claim, fault e (tick w)) # rest"
    "fault e (tick w) \<noteq> None \<longrightarrow> rest = []" by blast
  then have len: "length (trace w) \<le> length (trace w1)" by simp
  have ok: "fault e (tick w) = None"
  proof (rule ccontr)
    assume "fault e (tick w) \<noteq> None"
    with rest have "delivered (drop (length (trace w)) (trace w1)) = []" by auto
    with assms(2) show False by simp
  qed
  note tj = try_job[OF assms(1)]
  from try_store[OF assms(1,3)] ok
  have "find_job (job_id job) (jobs w1) = Some ?claim \<or>
        (find_job (job_id job) (jobs w1) = Some j1 \<and> status j1 = Completed)" by simp
  with tj have st: "\<exists>s. find_job (job_id job) (jobs w1) = Some s \<and>
      (status s = Processing \<or> status s = Completed) \<and>
      retries s = retries job + 1 \<and> error s = error job"
    by auto
  show ?thesis
  proof (cases "fault e (tick w1)")
    case None
    with assms(1,3) tj cw len show ?thesis
      by (auto simp: processEmailJob_def processEmailJob_catch_def job_save_def io_def Let_def
            find_job_replace_same poll_filter_def delivered_append)
  next
    case (Some y)
    with assms(1) tj st cw len show ?thesis
      by (auto simp: processEmailJob_def processEmailJob_catch_def job_save_def io_def Let_def
            delivered_append)
  qed
qed

text \<open>
  A run of the theorem: the ticket save fails after the delivery, the job is stored as
  \<open>Pending\<close>, and the next poll cycle sends the same email a second time.
\<close>

theorem post_delivery_error_witness:
  "fst (processEmailJob_try (env_faults (fault_at [7] store_down)) job0 world0) =
     Some store_down \<and>
   delivered (drop (length (trace world0))
     (trace (snd (snd (processEmailJob_try (env_faults (fault_at [7] store_down)) job0 world0))))) =
     [compose job0 ticket0 cred0] \<and>
   (\<exists>j' w'. processEmailJob (env_faults (fault_at [7] store_down)) job0 world0 =
              (Inr False, j', w') \<and>
      error j' = Some ''store unavailable'' \<and> status j' = Pending \<and>
      find_job ''j1'' (jobs w') = Some j' \<and> poll_filter j') \<and>
   delivered (trace (snd (pollJobs (env_faults (fault_at [8] store_down))
      (snd (pollJobs (env_faults (fault_at [8] store_down)) world0))))) =
     [compose job0 ticket0 cred0, compose job0 ticket0 cred0]"
proof -
  let ?e = "env_faults (fault_at [7] store_down)"
  let ?t = "processEmailJob_try ?e job0 world0"
  have a: "fst ?t = Some store_down" by code_simp
  then have run: "?t = (Some store_down, fst (snd ?t), snd (snd ?t))"
    by (metis prod.collapse)
  have d: "delivered (drop (length (trace world0)) (trace (snd (snd ?t)))) =
      [compose job0 ticket0 cred0]" by code_simp
  then have d': "delivered (drop (length (trace world0)) (trace (snd (snd ?t)))) \<noteq> []" by simp
  have f: "fault ?e (tick (snd (snd ?t))) = None" by code_simp
  have s: "find_job (job_id job0) (jobs world0) \<noteq> None" by (simp add: world0_def find_job_def)
  have g: "job_type job0 = send_email \<and> retries job0 + 1 < maxRetries job0 \<and>
      retries job0 + 1 < 3" by (simp add: job0_def)
  from post_delivery_error[OF run d' s] f g
  have "\<exists>r j' w'. processEmailJob ?e job0 world0 = (r, j', w') \<and> r = Inr False \<and>
      error j' = Some (message store_down) \<and>
      status j' = (if retries job0 + 1 \<ge> maxRetries job0 then Failed else Pending) \<and>
      find_job (job_id job0) (jobs w') = Some j' \<and> poll_filter j'"
    by blast
  then have b: "\<exists>j' w'. processEmailJob ?e job0 world0 = (Inr False, j', w') \<and>
      error j' = Some ''store unavailable'' \<and> status j' = Pending \<and>
      find_job ''j1'' (jobs w') = Some j' \<and> poll_filter j'"
    by (auto simp: job0_def store_down_def)
  have c: "delivered (trace (snd (pollJobs (env_faults (fault_at [8] store_down))
      (snd (pollJobs (env_faults (fault_at [8] store_down)) world0))))) =
     [compose job0 ticket0 cred0, compose job0 ticket0 cred0]" by code_simp
  from a d b c show ?thesis by blast
qed

text \<open>
  The claim as first stated, that the job ends up stored as \<open>Pending\<close> or \<open>Failed\<close> with the
  error, fails when the save of the \<open>catch\<close> block throws too: the ticket save fails after
  the delivery and so does the next save of the job. The email was delivered,
  \<open>processEmailJob\<close> rejects, and the stored job is \<open>Completed\<close> with no error.
\<close>

theorem post_delivery_error_counterexample:
  "delivered (trace (snd (snd (processEmailJob (env_faults (fault_at [7, 8] store_down))
      job0 world0)))) = [compose job0 ticket0 cred0] \<and>
   fst (processEmailJob (env_faults (fault_at [7, 8] store_down)) job0 world0) =
     Inl store_down \<and>
   saved_statuses (trace (snd (snd (processEmailJob (env_faults (fault_at [7, 8] store_down))
      job0 world0)))) = [(Processing, None), (Completed, None), (Pending, Some store_down)] \<and>
   map status (jobs (snd (snd (processEmailJob (env_faults (fault_at [7, 8] store_down))
      job0 world0)))) = [Completed] \<and>
   map error (jobs (snd (snd (processEmailJob (env_faults (fault_at [7, 8] store_down))
      job0 world0)))) = [None]"
  by code_simp

end
